theory Spec2Isabelle
  imports Complex_Main
begin

section \<open>The frame loop of \<^verbatim>\<open>packages/fiber/src/core/loop.ts\<close>\<close>

text \<open>
  A shallow embedding of \<^verbatim>\<open>loop.ts\<close>. The module is single threaded and works by
  mutation: three module-level arrays of global callbacks, the variables of the closure
  \<^verbatim>\<open>createLoop\<close> builds (\<^verbatim>\<open>init\<close>, \<^verbatim>\<open>running\<close>, \<^verbatim>\<open>repeat\<close>, \<^verbatim>\<open>frame\<close>), and
  the state objects of the roots. All of it is one record, \<open>World\<close>, that every function
  takes and returns.

  A JavaScript function object is known here by an identity only (a number): calling it
  appends an \<open>Event\<close> to the world's \<open>trace\<close> and does nothing else. JavaScript numbers
  that measure time are \<open>real\<close>; counters are \<open>int\<close>. The scratch variables \<^verbatim>\<open>i\<close>,
  \<^verbatim>\<open>subscribers\<close>, \<^verbatim>\<open>subscription\<close> and \<^verbatim>\<open>state\<close> hold nothing between calls and are
  not fields of the world.
\<close>

subsection \<open>Data\<close>

type_synonym callback = nat
type_synonym addr = nat
type_synonym canvas = nat
type_synonym xrframe = nat

datatype Frameloop = Always | Demand | Never

datatype RenderMode = Auto | Manual

text \<open>
  \<^verbatim>\<open>state.clock\<close> is a \<^verbatim>\<open>THREE.Clock\<close>: the two fields that \<^verbatim>\<open>update\<close> reads and
  writes. Its method \<^verbatim>\<open>getDelta()\<close> belongs to the three.js library; the functions below
  take it as the parameter \<open>getDelta\<close>, which returns the delta and the clock after the
  call.
\<close>

record Clock =
  elapsedTime :: real
  oldTime :: real

text \<open>
  The entries of a stage. \<open>FrameCallback\<close> and \<open>RenderCallback\<close> are the two closures
  that \<^verbatim>\<open>loop\<close> builds (lines 86-94 and 99-103); \<open>OtherCallback\<close> is any entry that
  other code added.
\<close>

datatype StageCallback = FrameCallback | RenderCallback | OtherCallback callback

record Stage =
  stage_name :: string
  stage_subs :: "(StageCallback \<times> addr) list"

text \<open>
  A \<^verbatim>\<open>RootState\<close>, with \<^verbatim>\<open>state.internal\<close> and \<^verbatim>\<open>state.gl\<close> flattened. \<open>xr\<close> is
  \<^verbatim>\<open>state.gl.xr?.isPresenting\<close>: \<open>None\<close> when \<^verbatim>\<open>gl.xr\<close> is undefined. \<open>gl_render\<close>
  says whether \<^verbatim>\<open>state.gl.render\<close> is defined. A subscription is the pair of its
  \<^verbatim>\<open>ref.current\<close> and the address of its \<^verbatim>\<open>store\<close>.
\<close>

record RootState =
  frameloop :: Frameloop
  render :: RenderMode
  frames :: int
  maxDelta :: real
  active :: bool
  stages :: "Stage list"
  subscribers :: "(callback \<times> addr) list"
  clock :: Clock
  xr :: "bool option"
  gl_render :: bool

datatype Event =
    EffectCall callback real
  | StageFrame addr string real "xrframe option"
  | SubscriberCall callback addr real "xrframe option"
  | GlRender addr
  | StageCall callback addr real "xrframe option"

text \<open>
  \<open>roots\<close> is the \<^verbatim>\<open>Map<TCanvas, Root>\<close> in insertion order, a root being the address of
  its store; \<open>store a\<close> is what \<^verbatim>\<open>store.getState()\<close> returns for the store at \<open>a\<close>.
  \<open>raf_next\<close> and \<open>raf_pending\<close> are the host's: the next handle that
  \<^verbatim>\<open>requestAnimationFrame\<close> will return, and the handles requested and neither fired nor
  cancelled.
\<close>

record World =
  globalEffects :: "callback list"
  globalAfterEffects :: "callback list"
  globalTailEffects :: "callback list"
  roots :: "(canvas \<times> addr) list"
  store :: "addr \<Rightarrow> RootState"
  init :: bool
  running :: bool
  repeat :: int
  frame :: "nat option"
  raf_next :: nat
  raf_pending :: "nat list"
  trace :: "Event list"

datatype error = TypeError

subsection \<open>The effect registry (lines 7-38)\<close>

text \<open>
  \<^verbatim>\<open>subs.splice(index, 1)\<close> for an index that is not negative: the element at \<open>index\<close>
  is removed when there is one, and nothing is removed otherwise.
\<close>

definition splice1 :: "nat \<Rightarrow> 'a list \<Rightarrow> 'a list" where
  "splice1 index subs = take index subs @ drop (Suc index) subs"

text \<open>
  \<^verbatim>\<open>createSubs\<close> returns a closure over \<^verbatim>\<open>index\<close> and the array. The model returns the
  captured index with the array after the push; \<open>Unsub\<close> below pairs it with the array it
  was taken from.
\<close>

definition createSubs :: "callback \<Rightarrow> callback list \<Rightarrow> nat \<times> callback list" where
  "createSubs cb subs = (let index = length subs in (index, subs @ [cb]))"

datatype EffectList = GlobalEffects | GlobalAfterEffects | GlobalTailEffects

datatype Unsub = Unsub EffectList nat

definition addEffect :: "callback \<Rightarrow> World \<Rightarrow> Unsub \<times> World" where
  "addEffect cb w =
     (let (index, subs) = createSubs cb (globalEffects w)
      in (Unsub GlobalEffects index, w\<lparr>globalEffects := subs\<rparr>))"

definition addAfterEffect :: "callback \<Rightarrow> World \<Rightarrow> Unsub \<times> World" where
  "addAfterEffect cb w =
     (let (index, subs) = createSubs cb (globalAfterEffects w)
      in (Unsub GlobalAfterEffects index, w\<lparr>globalAfterEffects := subs\<rparr>))"

definition addTail :: "callback \<Rightarrow> World \<Rightarrow> Unsub \<times> World" where
  "addTail cb w =
     (let (index, subs) = createSubs cb (globalTailEffects w)
      in (Unsub GlobalTailEffects index, w\<lparr>globalTailEffects := subs\<rparr>))"

text \<open>Calling the closure that \<^verbatim>\<open>createSubs\<close> returned (line 10).\<close>

fun unsub :: "Unsub \<Rightarrow> World \<Rightarrow> World" where
  "unsub (Unsub GlobalEffects index) w =
     w\<lparr>globalEffects := splice1 index (globalEffects w)\<rparr>"
| "unsub (Unsub GlobalAfterEffects index) w =
     w\<lparr>globalAfterEffects := splice1 index (globalAfterEffects w)\<rparr>"
| "unsub (Unsub GlobalTailEffects index) w =
     w\<lparr>globalTailEffects := splice1 index (globalTailEffects w)\<rparr>"

definition call_effect :: "real \<Rightarrow> callback \<Rightarrow> World \<Rightarrow> World" where
  "call_effect timestamp cb w = w\<lparr>trace := trace w @ [EffectCall cb timestamp]\<rparr>"

definition run :: "callback list \<Rightarrow> real \<Rightarrow> World \<Rightarrow> World" where
  "run effects timestamp w = fold (call_effect timestamp) effects w"

subsection \<open>The collaborators: host ticks and stages\<close>

text \<open>
  Modelled from the spec: the host tick primitive of section 6
  (\<^verbatim>\<open>requestTick(callback) -> handle\<close>, \<^verbatim>\<open>cancelTick(handle)\<close>), which is not part of
  \<^verbatim>\<open>loop.ts\<close>. Every request is for \<^verbatim>\<open>loop\<close>, so a pending request is its handle.
\<close>

definition requestAnimationFrame :: "World \<Rightarrow> nat \<times> World" where
  "requestAnimationFrame w =
     (raf_next w,
      w\<lparr>raf_next := Suc (raf_next w), raf_pending := raf_pending w @ [raf_next w]\<rparr>)"

definition cancelAnimationFrame :: "nat option \<Rightarrow> World \<Rightarrow> World" where
  "cancelAnimationFrame h w =
     (case h of None \<Rightarrow> w
      | Some n \<Rightarrow> w\<lparr>raf_pending := removeAll n (raf_pending w)\<rparr>)"

text \<open>
  Modelled from the spec: the stage container of sections 2 and 6, which is not part of
  \<^verbatim>\<open>loop.ts\<close>. A root's pipeline is an ordered list of named stages, each an ordered list
  of (callback, owner) pairs; \<^verbatim>\<open>getStage(name)\<close> gives the stage of that name in the
  pipeline (its position, the model's reference to it) or nothing; \<^verbatim>\<open>add\<close> appends a
  pair; \<^verbatim>\<open>frame(delta, frame)\<close> calls every pair's callback, in order, with the state of
  the pair's owner.
\<close>

fun stage_index :: "string \<Rightarrow> Stage list \<Rightarrow> nat option" where
  "stage_index n [] = None"
| "stage_index n (sg # sgs) =
     (if stage_name sg = n then Some 0 else map_option Suc (stage_index n sgs))"

definition getStage :: "RootState \<Rightarrow> string \<Rightarrow> nat option" where
  "getStage st n = stage_index n (stages st)"

definition stage_add :: "addr \<Rightarrow> nat \<Rightarrow> StageCallback \<Rightarrow> addr \<Rightarrow> World \<Rightarrow> World" where
  "stage_add a i cb owner w =
     (let st = store w a; sg = stages st ! i
      in w\<lparr>store := (store w)
            (a := st\<lparr>stages := (stages st)[i := sg\<lparr>stage_subs := stage_subs sg @ [(cb, owner)]\<rparr>]\<rparr>)\<rparr>)"

text \<open>
  What a stage entry does when it is called with its owner's state: the closure of lines
  87-93 calls every subscriber of that state, the closure of lines 100-102 submits the
  frame when rendering is automatic.
\<close>

fun run_entry ::
  "(addr \<Rightarrow> RootState) \<Rightarrow> real \<Rightarrow> xrframe option \<Rightarrow> StageCallback \<times> addr \<Rightarrow> Event list" where
  "run_entry sto delta fr (FrameCallback, owner) =
     map (\<lambda>s. SubscriberCall (fst s) (snd s) delta fr) (subscribers (sto owner))"
| "run_entry sto delta fr (RenderCallback, owner) =
     (if render (sto owner) = Auto \<and> gl_render (sto owner) then [GlRender owner] else [])"
| "run_entry sto delta fr (OtherCallback cb, owner) = [StageCall cb owner delta fr]"

definition stage_events ::
  "(addr \<Rightarrow> RootState) \<Rightarrow> addr \<Rightarrow> real \<Rightarrow> xrframe option \<Rightarrow> Stage \<Rightarrow> Event list" where
  "stage_events sto a delta fr sg =
     StageFrame a (stage_name sg) delta fr #
     concat (map (run_entry sto delta fr) (stage_subs sg))"

definition stage_frame :: "addr \<Rightarrow> real \<Rightarrow> xrframe option \<Rightarrow> Stage \<Rightarrow> World \<Rightarrow> World" where
  "stage_frame a delta fr sg w = w\<lparr>trace := trace w @ stage_events (store w) a delta fr sg\<rparr>"

subsection \<open>One update pass of a root (lines 42-60)\<close>

text \<open>
  Lines 44-52 of \<^verbatim>\<open>update\<close>: the delta that the stages receive and the clock after
  these lines. \<^verbatim>\<open>typeof timestamp === 'number'\<close> holds by the declared type of
  \<^verbatim>\<open>timestamp\<close>.
\<close>

definition clock_delta ::
  "(Clock \<Rightarrow> real \<times> Clock) \<Rightarrow> real \<Rightarrow> RootState \<Rightarrow> real \<times> Clock" where
  "clock_delta getDelta timestamp st =
     (let (d, c1) = getDelta (clock st)
      in if frameloop st = Never
         then (timestamp - elapsedTime c1,
               c1\<lparr>oldTime := elapsedTime c1, elapsedTime := timestamp\<rparr>)
         else (min d (maxDelta st), c1))"

text \<open>
  \<^verbatim>\<open>update(timestamp, state, frame)\<close> for the state at address \<open>a\<close>; the result is the
  returned number and the world after the call.
\<close>

definition update ::
  "(Clock \<Rightarrow> real \<times> Clock) \<Rightarrow> real \<Rightarrow> addr \<Rightarrow> xrframe option \<Rightarrow> World \<Rightarrow> int \<times> World" where
  "update getDelta timestamp a fr w =
     (let st = store w a;
          (delta, c2) = clock_delta getDelta timestamp st;
          w1 = w\<lparr>store := (store w)(a := st\<lparr>clock := c2\<rparr>)\<rparr>;
          w2 = fold (stage_frame a delta fr) (stages (store w1 a)) w1;
          st2 = store w2 a;
          n = max 0 (frames st2 - 1);
          w3 = w2\<lparr>store := (store w2)(a := st2\<lparr>frames := n\<rparr>)\<rparr>
      in (if frameloop st2 = Always then 1 else n, w3))"

subsection \<open>The driver (lines 62-154)\<close>

definition isPresenting :: "RootState \<Rightarrow> bool" where
  "isPresenting st = (xr st = Some True)"

text \<open>
  Lines 83-106, the body of \<^verbatim>\<open>if (init)\<close> for the root whose store is at \<open>a\<close>. The
  non-null assertions \<^verbatim>\<open>updateStage!\<close> and \<^verbatim>\<open>renderStage!\<close> check nothing at run time:
  calling \<^verbatim>\<open>add\<close> on \<^verbatim>\<open>undefined\<close> throws a TypeError.
\<close>

definition install :: "addr \<Rightarrow> World \<Rightarrow> error + World" where
  "install a w =
     (case getStage (store w a) ''update'' of
        None \<Rightarrow> Inl TypeError
      | Some i \<Rightarrow>
          (let w1 = stage_add a i FrameCallback a w
           in case getStage (store w1 a) ''render'' of
                None \<Rightarrow> Inl TypeError
              | Some j \<Rightarrow> Inr ((stage_add a j RenderCallback a w1)\<lparr>init := False\<rparr>)))"

text \<open>Lines 78-116, the callback that \<^verbatim>\<open>roots.forEach\<close> calls with each root.\<close>

definition loop_root ::
  "(Clock \<Rightarrow> real \<times> Clock) \<Rightarrow> real \<Rightarrow> canvas \<times> addr \<Rightarrow> World \<Rightarrow> error + World" where
  "loop_root getDelta timestamp rt w =
     (let a = snd rt
      in case (if init w then install a w else Inr w) of
           Inl e \<Rightarrow> Inl e
         | Inr w1 \<Rightarrow>
             (let st = store w1 a
              in if active st \<and> (frameloop st = Always \<or> frames st > 0) \<and> \<not> isPresenting st
                 then (let (n, w2) = update getDelta timestamp a None w1
                       in Inr (w2\<lparr>repeat := repeat w1 + n\<rparr>))
                 else Inr w1))"

fun forEach ::
  "(canvas \<times> addr \<Rightarrow> World \<Rightarrow> error + World) \<Rightarrow> (canvas \<times> addr) list \<Rightarrow> World \<Rightarrow> error + World" where
  "forEach f [] w = Inr w"
| "forEach f (rt # rs) w =
     (case f rt w of Inl e \<Rightarrow> Inl e | Inr w' \<Rightarrow> forEach f rs w')"

text \<open>Lines 70-119 of \<^verbatim>\<open>loop\<close>: everything before the test of \<^verbatim>\<open>repeat\<close>.\<close>

definition loop_body :: "(Clock \<Rightarrow> real \<times> Clock) \<Rightarrow> real \<Rightarrow> World \<Rightarrow> error + World" where
  "loop_body getDelta timestamp w =
     (let (h, w1) = requestAnimationFrame w;
          w2 = w1\<lparr>frame := Some h, running := True, repeat := 0\<rparr>;
          w3 = (if globalEffects w2 \<noteq> [] then run (globalEffects w2) timestamp w2 else w2)
      in case forEach (loop_root getDelta timestamp) (roots w3) w3 of
           Inl e \<Rightarrow> Inl e
         | Inr w4 \<Rightarrow>
             Inr (if globalAfterEffects w4 \<noteq> [] then run (globalAfterEffects w4) timestamp w4
                  else w4))"

text \<open>Lines 121-129 of \<^verbatim>\<open>loop\<close>.\<close>

definition loop_end :: "real \<Rightarrow> World \<Rightarrow> World" where
  "loop_end timestamp w =
     (if repeat w = 0
      then (let w1 = (if globalTailEffects w \<noteq> [] then run (globalTailEffects w) timestamp w
                      else w);
                w2 = w1\<lparr>running := False\<rparr>
            in cancelAnimationFrame (frame w2) w2)
      else w)"

definition loop :: "(Clock \<Rightarrow> real \<times> Clock) \<Rightarrow> real \<Rightarrow> World \<Rightarrow> error + World" where
  "loop getDelta timestamp w =
     (case loop_body getDelta timestamp w of
        Inl e \<Rightarrow> Inl e
      | Inr w' \<Rightarrow> Inr (loop_end timestamp w'))"

text \<open>
  \<^verbatim>\<open>invalidate(state?, frames = 1)\<close>. An omitted argument is \<open>None\<close>. In line 133 the
  call of \<^verbatim>\<open>forEach\<close> closes after \<^verbatim>\<open>frames\<close>: \<^verbatim>\<open>frames\<close> is the second argument of
  \<^verbatim>\<open>forEach\<close> (its \<^verbatim>\<open>thisArg\<close>), and the inner \<^verbatim>\<open>invalidate\<close> is called with the state
  alone.
\<close>

function invalidate :: "addr option \<Rightarrow> int option \<Rightarrow> World \<Rightarrow> World" where
  "invalidate None frames_arg w =
     fold (\<lambda>rt w'. invalidate (Some (snd rt)) None w') (roots w) w"
| "invalidate (Some a) frames_arg w =
     (let frames_n = (case frames_arg of None \<Rightarrow> 1 | Some n \<Rightarrow> n);
          st = store w a
      in if isPresenting st \<or> \<not> active st \<or> frameloop st = Never then w
         else (let w1 = w\<lparr>store := (store w)(a := st\<lparr>frames := min 60 (frames st + frames_n)\<rparr>)\<rparr>
               in if \<not> running w1
                  then snd (requestAnimationFrame (w1\<lparr>running := True\<rparr>))
                  else w1))"
  by pat_completeness auto
termination
  by (relation "measure (\<lambda>(s, f, w). case s of None \<Rightarrow> 1 | Some _ \<Rightarrow> 0)") auto

text \<open>\<^verbatim>\<open>advance(timestamp, runGlobalEffects, state?, frame?)\<close>.\<close>

definition advance ::
  "(Clock \<Rightarrow> real \<times> Clock) \<Rightarrow> real \<Rightarrow> bool \<Rightarrow> addr option \<Rightarrow> xrframe option \<Rightarrow> World \<Rightarrow> World" where
  "advance getDelta timestamp runGlobalEffects state fr w =
     (let w1 = (if runGlobalEffects then run (globalEffects w) timestamp w else w);
          w2 = (case state of
                  None \<Rightarrow> fold (\<lambda>rt w'. snd (update getDelta timestamp (snd rt) None w'))
                            (roots w1) w1
                | Some a \<Rightarrow> snd (update getDelta timestamp a fr w1))
      in if runGlobalEffects then run (globalAfterEffects w2) timestamp w2 else w2)"

subsection \<open>Vocabulary of the properties\<close>

text \<open>
  What one run of a root's pipeline appends to the trace: for every stage of the root at
  \<open>a\<close>, in pipeline order, the stage's events.
\<close>

definition pipeline_events ::
  "(addr \<Rightarrow> RootState) \<Rightarrow> addr \<Rightarrow> real \<Rightarrow> xrframe option \<Rightarrow> Event list" where
  "pipeline_events sto a delta fr = concat (map (stage_events sto a delta fr) (stages (sto a)))"

text \<open>The events that are calls of global effect callbacks.\<close>

fun is_effect_call :: "Event \<Rightarrow> bool" where
  "is_effect_call (EffectCall cb timestamp) = True"
| "is_effect_call e = False"

text \<open>The events that are calls of \<^verbatim>\<open>stage.frame\<close>.\<close>

fun is_stage_frame :: "Event \<Rightarrow> bool" where
  "is_stage_frame (StageFrame a n delta fr) = True"
| "is_stage_frame e = False"

text \<open>The fields of the driver and of the host that a pass over the roots leaves alone.\<close>

definition driver_eq :: "World \<Rightarrow> World \<Rightarrow> bool" where
  "driver_eq w w' =
     (globalEffects w' = globalEffects w \<and> globalAfterEffects w' = globalAfterEffects w \<and>
      globalTailEffects w' = globalTailEffects w \<and> roots w' = roots w \<and>
      running w' = running w \<and> frame w' = frame w \<and> raf_next w' = raf_next w \<and>
      raf_pending w' = raf_pending w)"

subsection \<open>Concrete inputs\<close>

text \<open>
  Two clocks: one that is stopped, whose \<^verbatim>\<open>getDelta()\<close> returns 0 and changes nothing,
  and one that runs, half a second having passed at every call.
\<close>

definition stopped :: "Clock \<Rightarrow> real \<times> Clock" where
  "stopped c = (0, c)"

definition ticking :: "Clock \<Rightarrow> real \<times> Clock" where
  "ticking c = (1 / 2, c\<lparr>oldTime := oldTime c + 500, elapsedTime := elapsedTime c + 1 / 2\<rparr>)"

text \<open>
  An active root with an update and a render stage, both empty, and one subscriber; a
  world whose every store holds such a root, with one callback in each global list, and
  a driver that has not run yet.
\<close>

definition demo_root :: "Frameloop \<Rightarrow> int \<Rightarrow> RootState" where
  "demo_root m n =
     \<lparr>frameloop = m, render = Auto, frames = n, maxDelta = 1 / 10, active = True,
      stages = [\<lparr>stage_name = ''update'', stage_subs = []\<rparr>,
                \<lparr>stage_name = ''render'', stage_subs = []\<rparr>],
      subscribers = [(7, 0)], clock = \<lparr>elapsedTime = 2, oldTime = 0\<rparr>, xr = None,
      gl_render = True\<rparr>"

definition demo_world :: "(canvas \<times> addr) list \<Rightarrow> Frameloop \<Rightarrow> int \<Rightarrow> World" where
  "demo_world rs m n =
     \<lparr>globalEffects = [1], globalAfterEffects = [2], globalTailEffects = [3], roots = rs,
      store = (\<lambda>a. demo_root m n), init = True, running = False, repeat = 0, frame = None,
      raf_next = 0, raf_pending = [], trace = []\<rparr>"

text \<open>
  The same world after the install step of lines 83-106 has run for the root at 0: its
  update stage holds the subscriber-runner and its render stage the submit entry.
\<close>

definition installed_world :: "(canvas \<times> addr) list \<Rightarrow> Frameloop \<Rightarrow> int \<Rightarrow> World" where
  "installed_world rs m n =
     (case install 0 (demo_world rs m n) of Inl e \<Rightarrow> demo_world rs m n | Inr w \<Rightarrow> w)"

subsection \<open>Sequences of calls\<close>

text \<open>
  The calls that change a root's counter: \<^verbatim>\<open>invalidate\<close>, a tick of the driver, and
  \<^verbatim>\<open>advance\<close>. A sequence of calls stops at the first exception. \<open>frames_arg_ok\<close> says
  that a call of \<^verbatim>\<open>invalidate\<close> passes no negative frame count.
\<close>

datatype Action =
    Invalidate "addr option" "int option"
  | Tick real
  | Advance real bool "addr option" "xrframe option"

fun exec :: "(Clock \<Rightarrow> real \<times> Clock) \<Rightarrow> Action \<Rightarrow> World \<Rightarrow> error + World" where
  "exec getDelta (Invalidate state frames_arg) w = Inr (invalidate state frames_arg w)"
| "exec getDelta (Tick timestamp) w = loop getDelta timestamp w"
| "exec getDelta (Advance timestamp runGlobalEffects state fr) w =
     Inr (advance getDelta timestamp runGlobalEffects state fr w)"

fun exec_all :: "(Clock \<Rightarrow> real \<times> Clock) \<Rightarrow> Action list \<Rightarrow> World \<Rightarrow> error + World" where
  "exec_all getDelta [] w = Inr w"
| "exec_all getDelta (act # acts) w =
     (case exec getDelta act w of Inl e \<Rightarrow> Inl e | Inr w' \<Rightarrow> exec_all getDelta acts w')"

fun frames_arg_ok :: "Action \<Rightarrow> bool" where
  "frames_arg_ok (Invalidate state (Some n)) = (0 \<le> n)"
| "frames_arg_ok act = True"

fun is_invalidate :: "Action \<Rightarrow> bool" where
  "is_invalidate (Invalidate state frames_arg) = True"
| "is_invalidate act = False"

text \<open>
  \<open>in_range\<close>: the counter of the root at \<open>a\<close> is in [0, 60]. \<open>no_growth\<close>: from
  \<open>w\<close> to \<open>w'\<close>, a counter that is not negative stays so and does not grow.
\<close>

definition in_range :: "World \<Rightarrow> addr \<Rightarrow> bool" where
  "in_range w a = (0 \<le> frames (store w a) \<and> frames (store w a) \<le> 60)"

definition no_growth :: "addr \<Rightarrow> World \<Rightarrow> World \<Rightarrow> bool" where
  "no_growth a w w' =
     (0 \<le> frames (store w a) \<longrightarrow> 0 \<le> frames (store w' a) \<and> frames (store w' a) \<le> frames (store w a))"

section \<open>Properties\<close>

subsection \<open>Closed forms\<close>

lemma run_closed:
  "run effects timestamp w =
     w\<lparr>trace := trace w @ map (\<lambda>cb. EffectCall cb timestamp) effects\<rparr>"
  unfolding run_def
  by (induction effects arbitrary: w) (simp_all add: call_effect_def)

lemma fold_stage_frame:
  "fold (stage_frame a delta fr) sgs w =
     w\<lparr>trace := trace w @ concat (map (stage_events (store w) a delta fr) sgs)\<rparr>"
  by (induction sgs arbitrary: w) (simp_all add: stage_frame_def)

text \<open>A stage entry reads the subscribers and the render settings of its owner only.\<close>

lemma run_entry_cong:
  "\<forall>b. subscribers (sto' b) = subscribers (sto b) \<and> render (sto' b) = render (sto b)
       \<and> gl_render (sto' b) = gl_render (sto b) \<Longrightarrow>
   run_entry sto' delta fr e = run_entry sto delta fr e"
  by (cases "(sto, delta, fr, e)" rule: run_entry.cases) simp_all

lemma stage_events_cong:
  "\<forall>b. subscribers (sto' b) = subscribers (sto b) \<and> render (sto' b) = render (sto b)
       \<and> gl_render (sto' b) = gl_render (sto b) \<Longrightarrow>
   stage_events sto' a delta fr sg = stage_events sto a delta fr sg"
  unfolding stage_events_def using run_entry_cong[of sto' sto]
  by (metis (no_types, lifting) map_eq_conv)

lemma update_closed:
  "update getDelta timestamp a fr w =
     (let st = store w a; dc = clock_delta getDelta timestamp st; n = max 0 (frames st - 1)
      in (if frameloop st = Always then 1 else n,
          w\<lparr>store := (store w)(a := st\<lparr>clock := snd dc, frames := n\<rparr>),
            trace := trace w @ pipeline_events (store w) a (fst dc) fr\<rparr>))"
proof -
  obtain delta c2 where dc: "clock_delta getDelta timestamp (store w a) = (delta, c2)"
    by (cases "clock_delta getDelta timestamp (store w a)")
  let ?sto1 = "(store w)(a := (store w a)\<lparr>clock := c2\<rparr>)"
  have ev: "stage_events ?sto1 a delta fr = stage_events (store w) a delta fr"
    by (rule ext, rule stage_events_cong) simp
  show ?thesis
    by (simp add: update_def dc fold_stage_frame ev pipeline_events_def Let_def)
qed

text \<open>
  The events of a pipeline, spelled out: what each kind of stage entry appends, and the
  calls of \<^verbatim>\<open>stage.frame\<close> among them, one for every stage, in pipeline order.
\<close>

lemma filter_concat_map_empty:
  "(\<And>x. filter P (f x) = []) \<Longrightarrow> filter P (concat (map f xs)) = []"
  by (induction xs) simp_all

lemma run_entry_explicit:
  "run_entry sto delta fr =
     (\<lambda>e. case fst e of
             FrameCallback \<Rightarrow>
               map (\<lambda>s. SubscriberCall (fst s) (snd s) delta fr) (subscribers (sto (snd e)))
           | RenderCallback \<Rightarrow>
               (if render (sto (snd e)) = Auto \<and> gl_render (sto (snd e)) then [GlRender (snd e)]
                else [])
           | OtherCallback cb \<Rightarrow> [StageCall cb (snd e) delta fr])"
proof (rule ext)
  fix e
  show "run_entry sto delta fr e =
     (case fst e of
             FrameCallback \<Rightarrow>
               map (\<lambda>s. SubscriberCall (fst s) (snd s) delta fr) (subscribers (sto (snd e)))
           | RenderCallback \<Rightarrow>
               (if render (sto (snd e)) = Auto \<and> gl_render (sto (snd e)) then [GlRender (snd e)]
                else [])
           | OtherCallback cb \<Rightarrow> [StageCall cb (snd e) delta fr])"
    by (cases "(sto, delta, fr, e)" rule: run_entry.cases) simp_all
qed

lemma run_entry_no_stage_frame: "filter is_stage_frame (run_entry sto delta fr e) = []"
  by (cases "(sto, delta, fr, e)" rule: run_entry.cases) (simp_all add: filter_empty_conv)

lemma pipeline_stage_frames:
  "filter is_stage_frame (pipeline_events sto a delta fr) =
     map (\<lambda>sg. StageFrame a (stage_name sg) delta fr) (stages (sto a))"
proof -
  have "filter is_stage_frame (concat (map (stage_events sto a delta fr) sgs)) =
          map (\<lambda>sg. StageFrame a (stage_name sg) delta fr) sgs" for sgs
    by (induction sgs)
       (simp_all add: stage_events_def filter_concat_map_empty run_entry_no_stage_frame)
  then show ?thesis by (simp add: pipeline_events_def)
qed

lemma install_closed:
  assumes "install a w = Inr w'"
  shows "\<exists>sgs. w' = w\<lparr>store := (store w)(a := (store w a)\<lparr>stages := sgs\<rparr>), init := False\<rparr>"
  using assms unfolding install_def stage_add_def
  by (auto split: option.splits simp: Let_def)

subsection \<open>What a pass over the roots leaves alone\<close>

lemma driver_eq_refl: "driver_eq w w"
  by (simp add: driver_eq_def)

lemma driver_eq_trans: "driver_eq w w1 \<Longrightarrow> driver_eq w1 w2 \<Longrightarrow> driver_eq w w2"
  by (simp add: driver_eq_def)

lemma install_driver_eq: "install a w = Inr w' \<Longrightarrow> driver_eq w w'"
  by (auto dest!: install_closed simp: driver_eq_def)

lemma loop_root_driver_eq: "loop_root getDelta timestamp rt w = Inr w' \<Longrightarrow> driver_eq w w'"
  unfolding loop_root_def Let_def
  by (auto split: sum.splits if_splits prod.splits
      dest: install_driver_eq intro: driver_eq_refl
      simp: update_closed Let_def driver_eq_def)

lemma forEach_driver_eq:
  "forEach (loop_root getDelta timestamp) rs w = Inr w' \<Longrightarrow> driver_eq w w'"
proof (induction rs arbitrary: w)
  case Nil
  then show ?case by (simp add: driver_eq_refl)
next
  case (Cons r rs)
  then show ?case
    by (auto split: sum.splits dest: loop_root_driver_eq driver_eq_trans)
qed

subsection \<open>The invalidation API\<close>

text \<open>
  C6. \<^verbatim>\<open>invalidate(rootState, frameCount)\<close> changes nothing at all (the world after the
  call is the world before it, so no tick is requested and an idle driver stays idle)
  when the root presents in XR, or is inactive, or its frame-loop mode is never. Otherwise
  the root's counter becomes min(60, counter + frameCount), no other root state changes,
  and the driver runs after the call: when it was idle, exactly one tick is requested
  from the host; when it was running, none is.
\<close>

theorem invalidate_root:
  "(isPresenting (store w a) \<or> \<not> active (store w a) \<or> frameloop (store w a) = Never
      \<longrightarrow> invalidate (Some a) frames_arg w = w) \<and>
   (\<not> (isPresenting (store w a) \<or> \<not> active (store w a) \<or> frameloop (store w a) = Never)
      \<longrightarrow> invalidate (Some a) frames_arg w =
          w\<lparr>store := (store w)
               (a := (store w a)\<lparr>frames :=
                  min 60 (frames (store w a) + (case frames_arg of None \<Rightarrow> 1 | Some n \<Rightarrow> n))\<rparr>),
            running := True,
            raf_next := (if running w then raf_next w else Suc (raf_next w)),
            raf_pending := (if running w then raf_pending w else raf_pending w @ [raf_next w])\<rparr>)"
  by (simp add: Let_def requestAnimationFrame_def)

theorem invalidate_root_witness:
  "invalidate (Some 0) (Some 5) (demo_world [(0, 0)] Never 3) = demo_world [(0, 0)] Never 3 \<and>
   invalidate (Some 0) (Some 5) (demo_world [(0, 0)] Demand 58) =
     (demo_world [(0, 0)] Demand 58)
       \<lparr>store := (store (demo_world [(0, 0)] Demand 58))(0 := demo_root Demand 60),
        running := True, raf_next := 1, raf_pending := [0]\<rparr>"
  using invalidate_root [of "demo_world [(0, 0)] Never 3" 0 "Some 5"]
    invalidate_root [of "demo_world [(0, 0)] Demand 58" 0 "Some 5"]
  by (simp add: demo_world_def demo_root_def isPresenting_def)

text \<open>
  C10. \<^verbatim>\<open>invalidate()\<close> with no root given, called while the Root Set is empty, returns
  the world it was given: no root state changes, no tick is requested, and \<^verbatim>\<open>running\<close>
  keeps its value, so an idle driver stays idle.
\<close>

theorem invalidate_no_roots: "roots w = [] \<Longrightarrow> invalidate None frames_arg w = w"
  by simp

theorem invalidate_no_roots_witness:
  "roots (demo_world [] Demand 0) = [] \<and>
   invalidate None (Some 5) (demo_world [] Demand 0) = demo_world [] Demand 0"
  using invalidate_no_roots [of "demo_world [] Demand 0" "Some 5"]
  by (simp add: demo_world_def)

text \<open>
  C1. The fan-out of \<^verbatim>\<open>invalidate\<close> reaches every root of the Root Set, but not with the
  caller's frame count: with two eligible roots whose counters are 0,
  \<^verbatim>\<open>invalidate(undefined, 5)\<close> leaves both counters at 1, where min(60, 0 + 5) is 5.
\<close>

theorem invalidate_all_ignores_frames:
  "frames (store (invalidate None (Some 5) (demo_world [(0, 0), (1, 1)] Demand 0)) 0) = 1 \<and>
   frames (store (invalidate None (Some 5) (demo_world [(0, 0), (1, 1)] Demand 0)) 1) = 1 \<and>
   min 60 (frames (store (demo_world [(0, 0), (1, 1)] Demand 0) 0) + 5) = 5"
  by (simp add: demo_world_def demo_root_def isPresenting_def requestAnimationFrame_def Let_def)

text \<open>
  C3. The handle that a registration returns removes whatever stands at the index the
  callback was pushed at, not the callback. After \<^verbatim>\<open>addEffect(10)\<close> and
  \<^verbatim>\<open>addEffect(20)\<close> on the list \<open>[1]\<close>, the handle of 10 removes 10; called a second
  time it removes 20, so the second call is not a no-op; and the handle of 20, called
  after 10 was removed, removes nothing, so 20 stays registered.
\<close>

theorem unsub_stale_index:
  "(let (ha, w1) = addEffect 10 (demo_world [] Demand 0);
        (hb, w2) = addEffect 20 w1;
        w3 = unsub ha w2
    in globalEffects w2 = [1, 10, 20] \<and> globalEffects w3 = [1, 20] \<and>
       globalEffects (unsub ha w3) = [1] \<and> globalEffects (unsub hb w3) = [1, 20])"
  by (simp add: addEffect_def createSubs_def splice1_def demo_world_def Let_def)

subsection \<open>One update pass\<close>

text \<open>
  C8, as amended. \<^verbatim>\<open>update\<close> calls \<^verbatim>\<open>getDelta()\<close> first, in every mode (line 44).
  In frame-loop mode never, every stage of the root's pipeline is then framed with the
  supplied timestamp minus the elapsed time that the clock holds after that call; the
  clock's old time becomes that elapsed time and its elapsed time the timestamp
  itself. For a clock whose \<^verbatim>\<open>getDelta()\<close> leaves the elapsed time alone, as a stopped
  clock does, the delta is the timestamp minus the elapsed time recorded before the
  update. In the modes always and demand every stage is framed with what
  \<^verbatim>\<open>getDelta()\<close> returned, clamped to the root's \<^verbatim>\<open>maxDelta\<close>, and the clock is as
  \<^verbatim>\<open>getDelta()\<close> left it.
\<close>

theorem update_delta:
  assumes "getDelta (clock (store w a)) = (d, c1)"
  shows "(frameloop (store w a) = Never \<longrightarrow>
            trace (snd (update getDelta timestamp a fr w)) =
              trace w @ pipeline_events (store w) a (timestamp - elapsedTime c1) fr \<and>
            filter is_stage_frame
              (drop (length (trace w)) (trace (snd (update getDelta timestamp a fr w)))) =
              map (\<lambda>sg. StageFrame a (stage_name sg) (timestamp - elapsedTime c1) fr)
                (stages (store w a)) \<and>
            clock (store (snd (update getDelta timestamp a fr w)) a) =
              c1\<lparr>oldTime := elapsedTime c1, elapsedTime := timestamp\<rparr> \<and>
            (elapsedTime c1 = elapsedTime (clock (store w a)) \<longrightarrow>
               filter is_stage_frame
                 (drop (length (trace w)) (trace (snd (update getDelta timestamp a fr w)))) =
                 map (\<lambda>sg. StageFrame a (stage_name sg)
                        (timestamp - elapsedTime (clock (store w a))) fr)
                   (stages (store w a)))) \<and>
         (frameloop (store w a) \<noteq> Never \<longrightarrow>
            trace (snd (update getDelta timestamp a fr w)) =
              trace w @ pipeline_events (store w) a (min d (maxDelta (store w a))) fr \<and>
            filter is_stage_frame
              (drop (length (trace w)) (trace (snd (update getDelta timestamp a fr w)))) =
              map (\<lambda>sg. StageFrame a (stage_name sg) (min d (maxDelta (store w a))) fr)
                (stages (store w a)) \<and>
            clock (store (snd (update getDelta timestamp a fr w)) a) = c1)"
  using assms
  by (simp add: clock_delta_def update_closed Let_def pipeline_stage_frames)

theorem update_delta_witness:
  "trace (snd (update stopped 10 0 None (installed_world [(0, 0)] Never 0))) =
     [StageFrame 0 ''update'' 8 None, SubscriberCall 7 0 8 None,
      StageFrame 0 ''render'' 8 None, GlRender 0] \<and>
   clock (store (snd (update stopped 10 0 None (installed_world [(0, 0)] Never 0))) 0) =
     \<lparr>elapsedTime = 10, oldTime = 2\<rparr> \<and>
   trace (snd (update ticking 10 0 None (installed_world [(0, 0)] Demand 0))) =
     [StageFrame 0 ''update'' (1 / 10) None, SubscriberCall 7 0 (1 / 10) None,
      StageFrame 0 ''render'' (1 / 10) None, GlRender 0] \<and>
   clock (store (snd (update ticking 10 0 None (installed_world [(0, 0)] Demand 0))) 0) =
     \<lparr>elapsedTime = 5 / 2, oldTime = 500\<rparr>"
proof -
  have s: "stopped (clock (store (installed_world [(0, 0)] Never 0) 0)) =
             (0, \<lparr>elapsedTime = 2, oldTime = 0\<rparr>)"
    by (simp add: stopped_def installed_world_def install_def getStage_def stage_add_def
        demo_world_def demo_root_def Let_def)
  have t: "ticking (clock (store (installed_world [(0, 0)] Demand 0) 0)) =
             (1 / 2, \<lparr>elapsedTime = 5 / 2, oldTime = 500\<rparr>)"
    by (simp add: ticking_def installed_world_def install_def getStage_def stage_add_def
        demo_world_def demo_root_def Let_def)
  show ?thesis
    using update_delta [where getDelta = stopped and w = "installed_world [(0, 0)] Never 0"
        and a = 0 and timestamp = 10 and fr = None, OF s]
      update_delta [where getDelta = ticking and w = "installed_world [(0, 0)] Demand 0"
        and a = 0 and timestamp = 10 and fr = None, OF t]
    by (simp add: installed_world_def install_def getStage_def stage_add_def
        demo_world_def demo_root_def pipeline_events_def stage_events_def Let_def)
qed

text \<open>
  The claim C8 as it is written takes the delta of mode never from the elapsed time
  recorded before the update, with no advance of the clock on its own. With a running
  clock, whose \<^verbatim>\<open>getDelta()\<close> adds the half second that has passed to the elapsed
  time, a never-mode root whose clock recorded 2 is updated with timestamp 10: the
  stages and the subscriber receive 15/2, not 10 - 2, and the clock's old time
  becomes 5/2.
\<close>

theorem running_clock_never_delta:
  "frameloop (store (installed_world [(0, 0)] Never 0) 0) = Never \<and>
   elapsedTime (clock (store (installed_world [(0, 0)] Never 0) 0)) = 2 \<and>
   trace (snd (update ticking 10 0 None (installed_world [(0, 0)] Never 0))) =
     [StageFrame 0 ''update'' (15 / 2) None, SubscriberCall 7 0 (15 / 2) None,
      StageFrame 0 ''render'' (15 / 2) None, GlRender 0] \<and>
   clock (store (snd (update ticking 10 0 None (installed_world [(0, 0)] Never 0))) 0) =
     \<lparr>elapsedTime = 10, oldTime = 5 / 2\<rparr> \<and>
   (15 / 2 :: real) \<noteq> 10 - 2"
  by (simp add: update_closed clock_delta_def ticking_def installed_world_def install_def
      getStage_def stage_add_def demo_world_def demo_root_def pipeline_events_def
      stage_events_def Let_def)

text \<open>
  C9. \<^verbatim>\<open>advance(t, true, someRootState, frame)\<close> calls the global pre-effects in order,
  then runs every stage of that one root's pipeline, in pipeline order, then calls the
  global post-effects in order, and nothing else is appended to the trace: no tail
  effect is called. Running a stage calls its entries in order: the subscriber-runner
  calls every subscriber of its owner with the delta and the frame, the submit entry
  calls \<^verbatim>\<open>gl.render\<close> when the owner's render mode is auto. Of the world only that
  root's clock and counter and the trace change, so the driver's \<^verbatim>\<open>running\<close> flag
  keeps its value and no tick is requested from the host. \<^verbatim>\<open>advance\<close> installs no
  entry: a root whose stages hold none (every root of a driver that has not ticked
  yet) has its stages framed and nothing more.
\<close>

theorem advance_one_root:
  "advance getDelta timestamp True (Some a) fr w =
     w\<lparr>store := (store w)
          (a := (store w a)\<lparr>clock := snd (clock_delta getDelta timestamp (store w a)),
                            frames := max 0 (frames (store w a) - 1)\<rparr>),
       trace := trace w @ map (\<lambda>cb. EffectCall cb timestamp) (globalEffects w) @
                pipeline_events (store w) a (fst (clock_delta getDelta timestamp (store w a))) fr @
                map (\<lambda>cb. EffectCall cb timestamp) (globalAfterEffects w)\<rparr> \<and>
   pipeline_events (store w) a (fst (clock_delta getDelta timestamp (store w a))) fr =
     concat (map
       (\<lambda>sg. StageFrame a (stage_name sg) (fst (clock_delta getDelta timestamp (store w a))) fr #
             concat (map
               (\<lambda>e. case fst e of
                       FrameCallback \<Rightarrow>
                         map (\<lambda>s. SubscriberCall (fst s) (snd s)
                                    (fst (clock_delta getDelta timestamp (store w a))) fr)
                           (subscribers (store w (snd e)))
                     | RenderCallback \<Rightarrow>
                         (if render (store w (snd e)) = Auto \<and> gl_render (store w (snd e))
                          then [GlRender (snd e)] else [])
                     | OtherCallback cb \<Rightarrow>
                         [StageCall cb (snd e)
                            (fst (clock_delta getDelta timestamp (store w a))) fr])
               (stage_subs sg)))
       (stages (store w a))) \<and>
   running (advance getDelta timestamp True (Some a) fr w) = running w \<and>
   raf_pending (advance getDelta timestamp True (Some a) fr w) = raf_pending w \<and>
   raf_next (advance getDelta timestamp True (Some a) fr w) = raf_next w"
proof -
  have "pipeline_events (store w) a delta fr =
     concat (map
       (\<lambda>sg. StageFrame a (stage_name sg) delta fr #
             concat (map
               (\<lambda>e. case fst e of
                       FrameCallback \<Rightarrow>
                         map (\<lambda>s. SubscriberCall (fst s) (snd s) delta fr)
                           (subscribers (store w (snd e)))
                     | RenderCallback \<Rightarrow>
                         (if render (store w (snd e)) = Auto \<and> gl_render (store w (snd e))
                          then [GlRender (snd e)] else [])
                     | OtherCallback cb \<Rightarrow> [StageCall cb (snd e) delta fr])
               (stage_subs sg)))
       (stages (store w a)))" for delta
    unfolding pipeline_events_def stage_events_def run_entry_explicit by (rule refl)
  then show ?thesis
    by (simp add: advance_def run_closed update_closed Let_def)
qed

theorem advance_one_root_witness:
  "trace (advance stopped 16 True (Some 0) None (installed_world [(0, 0), (1, 1)] Never 0)) =
     [EffectCall 1 16, StageFrame 0 ''update'' 14 None, SubscriberCall 7 0 14 None,
      StageFrame 0 ''render'' 14 None, GlRender 0, EffectCall 2 16] \<and>
   running (advance stopped 16 True (Some 0) None (installed_world [(0, 0), (1, 1)] Never 0)) = False \<and>
   raf_pending (advance stopped 16 True (Some 0) None (installed_world [(0, 0), (1, 1)] Never 0)) = []"
  using advance_one_root [of stopped 16 0 None "installed_world [(0, 0), (1, 1)] Never 0"]
  by (simp add: installed_world_def install_def getStage_def stage_add_def
      demo_world_def demo_root_def clock_delta_def stopped_def Let_def)

subsection \<open>The driver's tick\<close>

lemmas eval_defs = loop_body_def requestAnimationFrame_def run_closed loop_root_def install_def
  getStage_def stage_add_def update_closed clock_delta_def pipeline_events_def stage_events_def
  demo_world_def demo_root_def isPresenting_def stopped_def Let_def

text \<open>
  Once \<^verbatim>\<open>init\<close> is false it stays false, and no tick adds an entry to any stage of any
  root.
\<close>

lemma loop_root_no_install:
  assumes "\<not> init w" and "loop_root getDelta timestamp rt w = Inr w'"
  shows "\<not> init w' \<and> stages (store w' b) = stages (store w b)"
  using assms
  by (auto simp: loop_root_def update_closed Let_def split: if_splits)

lemma forEach_no_install:
  "\<not> init w \<Longrightarrow> forEach (loop_root getDelta timestamp) rs w = Inr w' \<Longrightarrow>
   \<not> init w' \<and> stages (store w' b) = stages (store w b)"
proof (induction rs arbitrary: w)
  case Nil
  then show ?case by simp
next
  case (Cons r rs)
  from Cons.prems obtain w1 where
    r: "loop_root getDelta timestamp r w = Inr w1" and
    rs: "forEach (loop_root getDelta timestamp) rs w1 = Inr w'"
    by (auto split: sum.splits)
  from loop_root_no_install [OF Cons.prems(1) r, of b]
  have 1: "\<not> init w1" and 2: "stages (store w1 b) = stages (store w b)" by simp_all
  from Cons.IH [OF 1 rs] 2 show ?case by simp
qed

text \<open>
  A tick of a driver whose \<^verbatim>\<open>init\<close> is false throws nothing: it returns a world.
\<close>

lemma loop_root_returns: "\<not> init w \<Longrightarrow> \<exists>w'. loop_root getDelta timestamp rt w = Inr w'"
  by (simp add: loop_root_def Let_def split: prod.splits)

lemma forEach_returns:
  "\<not> init w \<Longrightarrow> \<exists>w'. forEach (loop_root getDelta timestamp) rs w = Inr w'"
proof (induction rs arbitrary: w)
  case Nil
  then show ?case by simp
next
  case (Cons r rs)
  from loop_root_returns [OF Cons.prems] obtain w1 where
    r: "loop_root getDelta timestamp r w = Inr w1" by blast
  from loop_root_no_install [OF Cons.prems r] have "\<not> init w1" by simp
  from Cons.IH [OF this] r show ?case by simp
qed

lemma loop_returns: "\<not> init w \<Longrightarrow> \<exists>w'. loop getDelta timestamp w = Inr w'"
proof -
  assume i: "\<not> init w"
  define w2 where
    "w2 = (snd (requestAnimationFrame w))\<lparr>frame := Some (raf_next w), running := True, repeat := 0\<rparr>"
  define w3 where
    "w3 = (if globalEffects w2 \<noteq> [] then run (globalEffects w2) timestamp w2 else w2)"
  have lb: "loop_body getDelta timestamp w =
          (case forEach (loop_root getDelta timestamp) (roots w3) w3 of
             Inl e \<Rightarrow> Inl e
           | Inr w4 \<Rightarrow>
               Inr (if globalAfterEffects w4 \<noteq> [] then run (globalAfterEffects w4) timestamp w4
                    else w4))"
    by (simp add: loop_body_def w3_def w2_def requestAnimationFrame_def Let_def)
  have "\<not> init w3"
    using i by (simp add: w3_def w2_def run_closed requestAnimationFrame_def)
  from forEach_returns [OF this] obtain w4 where
    "forEach (loop_root getDelta timestamp) (roots w3) w3 = Inr w4" by blast
  with lb show ?thesis by (simp add: loop_def)
qed

text \<open>
  C2. The stage entries are installed for the first root of the first tick and for no
  other root. With two roots in mode always, after the first tick the first root's
  update stage holds the subscriber-runner and its render stage the submit entry, and
  the second root's stages are empty; after the second tick they still are. The trace
  of the two ticks shows the consequence: the second root's stages run, but no subscriber
  of it is called and no frame of it is submitted.
\<close>

theorem install_first_root_only:
  "(case loop stopped 16 (demo_world [(0, 0), (1, 1)] Always 0) of
      Inl e \<Rightarrow> False
    | Inr w1 \<Rightarrow>
        (case loop stopped 32 w1 of
           Inl e \<Rightarrow> False
         | Inr w2 \<Rightarrow>
             map stage_subs (stages (store w1 0)) = [[(FrameCallback, 0)], [(RenderCallback, 0)]] \<and>
             map stage_subs (stages (store w1 1)) = [[], []] \<and>
             map stage_subs (stages (store w2 1)) = [[], []] \<and>
             trace w2 =
               [EffectCall 1 16, StageFrame 0 ''update'' 0 None, SubscriberCall 7 0 0 None,
                StageFrame 0 ''render'' 0 None, GlRender 0, StageFrame 1 ''update'' 0 None,
                StageFrame 1 ''render'' 0 None, EffectCall 2 16, EffectCall 1 32,
                StageFrame 0 ''update'' 0 None, SubscriberCall 7 0 0 None,
                StageFrame 0 ''render'' 0 None, GlRender 0, StageFrame 1 ''update'' 0 None,
                StageFrame 1 ''render'' 0 None, EffectCall 2 32]))"
  by (simp add: loop_def loop_end_def cancelAnimationFrame_def eval_defs)

text \<open>
  C4, as amended. In a tick, once the install step of lines 83-106 has passed (it
  changes neither the trace nor the tally), a root is skipped if and only if it is
  inactive, or its mode is not always (demand or never) and its counter is not above 0,
  or it presents in XR: then the callback returns with nothing else done, so the
  pipeline has not run and the tally is as it was. Otherwise \<^verbatim>\<open>update\<close> runs: the
  pipeline's events are appended to the trace, the counter becomes max(0, counter - 1),
  and the tally grows by 1 in mode always, else by the decremented counter.
\<close>

theorem loop_root_skip_or_process:
  assumes "(if init w then install a w else Inr w) = Inr w1"
  shows "trace w1 = trace w \<and> repeat w1 = repeat w \<and>
         (\<not> active (store w a) \<or> (frameloop (store w a) \<noteq> Always \<and> frames (store w a) \<le> 0) \<or>
          isPresenting (store w a)
            \<longrightarrow> loop_root getDelta timestamp (c, a) w = Inr w1) \<and>
         (\<not> (\<not> active (store w a) \<or> (frameloop (store w a) \<noteq> Always \<and> frames (store w a) \<le> 0) \<or>
             isPresenting (store w a))
            \<longrightarrow> loop_root getDelta timestamp (c, a) w =
                  Inr ((snd (update getDelta timestamp a None w1))
                       \<lparr>repeat := repeat w +
                          (if frameloop (store w a) = Always then 1
                           else max 0 (frames (store w a) - 1))\<rparr>) \<and>
                frames (store (snd (update getDelta timestamp a None w1)) a) =
                  max 0 (frames (store w a) - 1) \<and>
                trace (snd (update getDelta timestamp a None w1)) =
                  trace w @ pipeline_events (store w1) a
                    (fst (clock_delta getDelta timestamp (store w a))) None)"
proof (cases "init w")
  case False
  with assms have "w1 = w" by simp
  then show ?thesis using False
    by (simp add: loop_root_def update_closed Let_def)
next
  case True
  with assms have i: "install a w = Inr w1" by simp
  from install_closed [OF i] obtain sgs where
    w1: "w1 = w\<lparr>store := (store w)(a := (store w a)\<lparr>stages := sgs\<rparr>), init := False\<rparr>" by blast
  have cd: "clock_delta getDelta timestamp (store w a\<lparr>stages := sgs\<rparr>) =
            clock_delta getDelta timestamp (store w a)"
    by (simp add: clock_delta_def split: prod.splits)
  show ?thesis using True i
    by (simp add: loop_root_def update_closed Let_def w1 isPresenting_def cd)
qed

theorem loop_root_skip_or_process_witness:
  "loop_root stopped 16 (0, 0) ((demo_world [(0, 0)] Demand 0)\<lparr>init := False\<rparr>) =
     Inr ((demo_world [(0, 0)] Demand 0)\<lparr>init := False\<rparr>) \<and>
   loop_root stopped 16 (0, 0) ((demo_world [(0, 0)] Demand 2)\<lparr>init := False\<rparr>) =
     Inr ((snd (update stopped 16 0 None ((demo_world [(0, 0)] Demand 2)\<lparr>init := False\<rparr>)))
          \<lparr>repeat := 1\<rparr>) \<and>
   frames (store (snd (update stopped 16 0 None
     ((demo_world [(0, 0)] Demand 2)\<lparr>init := False\<rparr>))) 0) = 1 \<and>
   trace (snd (update stopped 16 0 None ((demo_world [(0, 0)] Demand 2)\<lparr>init := False\<rparr>))) =
     [StageFrame 0 ''update'' 0 None, StageFrame 0 ''render'' 0 None]"
proof -
  have a: "(if init ((demo_world [(0, 0)] Demand 0)\<lparr>init := False\<rparr>)
            then install 0 ((demo_world [(0, 0)] Demand 0)\<lparr>init := False\<rparr>)
            else Inr ((demo_world [(0, 0)] Demand 0)\<lparr>init := False\<rparr>)) =
           Inr ((demo_world [(0, 0)] Demand 0)\<lparr>init := False\<rparr>)"
    by simp
  have b: "(if init ((demo_world [(0, 0)] Demand 2)\<lparr>init := False\<rparr>)
            then install 0 ((demo_world [(0, 0)] Demand 2)\<lparr>init := False\<rparr>)
            else Inr ((demo_world [(0, 0)] Demand 2)\<lparr>init := False\<rparr>)) =
           Inr ((demo_world [(0, 0)] Demand 2)\<lparr>init := False\<rparr>)"
    by simp
  show ?thesis
    using loop_root_skip_or_process [where a = 0 and getDelta = stopped and timestamp = 16
        and c = 0, OF a]
      loop_root_skip_or_process [where a = 0 and getDelta = stopped and timestamp = 16
        and c = 0, OF b]
    by (simp add: demo_world_def demo_root_def isPresenting_def pipeline_events_def
        stage_events_def clock_delta_def stopped_def)
qed

text \<open>
  The claim C4 as it is written names only the mode demand. A root in mode never whose
  counter is 0, active and not presenting, meets none of the three conditions of the
  claim, and the tick skips it all the same: the callback returns the world unchanged.
\<close>

theorem never_root_skipped:
  "loop_root stopped 16 (0, 0) ((demo_world [(0, 0)] Never 0)\<lparr>init := False\<rparr>) =
     Inr ((demo_world [(0, 0)] Never 0)\<lparr>init := False\<rparr>) \<and>
   \<not> (\<not> active (store ((demo_world [(0, 0)] Never 0)\<lparr>init := False\<rparr>) 0) \<or>
      (frameloop (store ((demo_world [(0, 0)] Never 0)\<lparr>init := False\<rparr>) 0) = Demand \<and>
       frames (store ((demo_world [(0, 0)] Never 0)\<lparr>init := False\<rparr>) 0) = 0) \<or>
      isPresenting (store ((demo_world [(0, 0)] Never 0)\<lparr>init := False\<rparr>) 0))"
  by (simp add: loop_root_def demo_world_def demo_root_def isPresenting_def)

text \<open>
  What the part of \<^verbatim>\<open>loop\<close> before the test of \<^verbatim>\<open>repeat\<close> does to the driver and the
  host: one tick is requested, its handle is kept in \<^verbatim>\<open>frame\<close>, and the driver runs.
\<close>

lemma loop_body_driver:
  assumes "loop_body getDelta timestamp w = Inr m"
  shows "raf_pending m = raf_pending w @ [raf_next w] \<and> frame m = Some (raf_next w) \<and>
         running m \<and> globalTailEffects m = globalTailEffects w \<and> raf_next m = Suc (raf_next w)"
proof -
  define w2 where
    "w2 = (snd (requestAnimationFrame w))\<lparr>frame := Some (raf_next w), running := True, repeat := 0\<rparr>"
  define w3 where
    "w3 = (if globalEffects w2 \<noteq> [] then run (globalEffects w2) timestamp w2 else w2)"
  have "loop_body getDelta timestamp w =
          (case forEach (loop_root getDelta timestamp) (roots w3) w3 of
             Inl e \<Rightarrow> Inl e
           | Inr w4 \<Rightarrow>
               Inr (if globalAfterEffects w4 \<noteq> [] then run (globalAfterEffects w4) timestamp w4
                    else w4))"
    by (simp add: loop_body_def w3_def w2_def requestAnimationFrame_def Let_def)
  with assms obtain w4 where
    fe: "forEach (loop_root getDelta timestamp) (roots w3) w3 = Inr w4" and
    m: "m = (if globalAfterEffects w4 \<noteq> [] then run (globalAfterEffects w4) timestamp w4 else w4)"
    by (auto split: sum.splits)
  have w3: "raf_pending w3 = raf_pending w @ [raf_next w] \<and> frame w3 = Some (raf_next w) \<and>
            running w3 \<and> globalTailEffects w3 = globalTailEffects w \<and>
            raf_next w3 = Suc (raf_next w)"
    by (simp add: w3_def w2_def run_closed requestAnimationFrame_def)
  from forEach_driver_eq [OF fe] have "driver_eq w3 w4" .
  with w3 show ?thesis
    by (simp add: m driver_eq_def run_closed)
qed

text \<open>
  The trace of that part: the pre-effects' calls in list order, then events of the
  roots, none of them a call of a global effect, then the post-effects' calls in list
  order.
\<close>

lemma run_entry_no_effect_call: "filter is_effect_call (run_entry sto delta fr e) = []"
  by (cases "(sto, delta, fr, e)" rule: run_entry.cases) (simp_all add: filter_empty_conv)

lemma stage_events_no_effect_call: "filter is_effect_call (stage_events sto a delta fr sg) = []"
  by (simp add: stage_events_def filter_concat_map_empty run_entry_no_effect_call)

lemma pipeline_events_no_effect_call:
  "filter is_effect_call (pipeline_events sto a delta fr) = []"
  by (simp add: pipeline_events_def filter_concat_map_empty stage_events_no_effect_call)

lemma loop_root_trace:
  assumes "loop_root getDelta timestamp rt w = Inr w'"
  shows "\<exists>evs. trace w' = trace w @ evs \<and> filter is_effect_call evs = []"
proof -
  from assms obtain w1 where i: "(if init w then install (snd rt) w else Inr w) = Inr w1"
    by (auto simp: loop_root_def Let_def split: sum.splits)
  have t1: "trace w1 = trace w"
    using i by (auto split: if_splits dest!: install_closed)
  have "w' = w1 \<or> (\<exists>n. w' = (snd (update getDelta timestamp (snd rt) None w1))\<lparr>repeat := n\<rparr>)"
    using assms i by (auto simp: loop_root_def Let_def split: if_splits prod.splits)
  then show ?thesis
  proof
    assume "w' = w1"
    with t1 show ?thesis by simp
  next
    assume "\<exists>n. w' = (snd (update getDelta timestamp (snd rt) None w1))\<lparr>repeat := n\<rparr>"
    then have "trace w' = trace w @ pipeline_events (store w1) (snd rt)
                 (fst (clock_delta getDelta timestamp (store w1 (snd rt)))) None"
      using t1 by (auto simp: update_closed Let_def)
    then show ?thesis
      using pipeline_events_no_effect_call by blast
  qed
qed

lemma forEach_trace:
  "forEach (loop_root getDelta timestamp) rs w = Inr w' \<Longrightarrow>
   \<exists>evs. trace w' = trace w @ evs \<and> filter is_effect_call evs = []"
proof (induction rs arbitrary: w)
  case Nil
  then show ?case by simp
next
  case (Cons r rs)
  from Cons.prems obtain w1 where
    r: "loop_root getDelta timestamp r w = Inr w1" and
    rs: "forEach (loop_root getDelta timestamp) rs w1 = Inr w'"
    by (auto split: sum.splits)
  from loop_root_trace [OF r] obtain e1 where
    e1: "trace w1 = trace w @ e1" "filter is_effect_call e1 = []" by blast
  from Cons.IH [OF rs] obtain e2 where
    e2: "trace w' = trace w1 @ e2" "filter is_effect_call e2 = []" by blast
  from e1 e2 have "trace w' = trace w @ (e1 @ e2) \<and> filter is_effect_call (e1 @ e2) = []"
    by simp
  then show ?case by blast
qed

lemma loop_body_trace:
  assumes "loop_body getDelta timestamp w = Inr m"
  shows "\<exists>evs. trace m = trace w @ map (\<lambda>cb. EffectCall cb timestamp) (globalEffects w) @ evs @
                    map (\<lambda>cb. EffectCall cb timestamp) (globalAfterEffects w) \<and>
               filter is_effect_call evs = []"
proof -
  define w2 where
    "w2 = (snd (requestAnimationFrame w))\<lparr>frame := Some (raf_next w), running := True, repeat := 0\<rparr>"
  define w3 where
    "w3 = (if globalEffects w2 \<noteq> [] then run (globalEffects w2) timestamp w2 else w2)"
  have "loop_body getDelta timestamp w =
          (case forEach (loop_root getDelta timestamp) (roots w3) w3 of
             Inl e \<Rightarrow> Inl e
           | Inr w4 \<Rightarrow>
               Inr (if globalAfterEffects w4 \<noteq> [] then run (globalAfterEffects w4) timestamp w4
                    else w4))"
    by (simp add: loop_body_def w3_def w2_def requestAnimationFrame_def Let_def)
  with assms obtain w4 where
    fe: "forEach (loop_root getDelta timestamp) (roots w3) w3 = Inr w4" and
    m: "m = (if globalAfterEffects w4 \<noteq> [] then run (globalAfterEffects w4) timestamp w4 else w4)"
    by (auto split: sum.splits)
  have w3: "trace w3 = trace w @ map (\<lambda>cb. EffectCall cb timestamp) (globalEffects w) \<and>
            globalAfterEffects w3 = globalAfterEffects w"
    by (simp add: w3_def w2_def run_closed requestAnimationFrame_def)
  from forEach_driver_eq [OF fe] have a4: "globalAfterEffects w4 = globalAfterEffects w3"
    by (simp add: driver_eq_def)
  from forEach_trace [OF fe] obtain evs where
    evs: "trace w4 = trace w3 @ evs" "filter is_effect_call evs = []" by blast
  have "trace m = trace w4 @ map (\<lambda>cb. EffectCall cb timestamp) (globalAfterEffects w4)"
    by (simp add: m run_closed)
  with w3 a4 evs show ?thesis by auto
qed

text \<open>
  C7. Let \<open>m\<close> be the world when a tick reaches the test of \<^verbatim>\<open>repeat\<close> (line 122), the
  host's handles being fresh. The tick then returns. If \<^verbatim>\<open>repeat\<close> is 0, the tail
  effects are called once each, in registration order, after the post-effects, and
  nowhere else in the tick; the driver is idle; and the request that this tick made is
  cancelled, so the host's pending requests are those from before the tick: none, when
  the tick that fired was the only request. If \<^verbatim>\<open>repeat\<close> is not 0, no tail effect is
  called, the driver runs, and the request that this tick made at its start is pending.
\<close>

theorem loop_end_of_tick:
  assumes "loop_body getDelta timestamp w = Inr m"
    and "raf_next w \<notin> set (raf_pending w)"
  shows "\<exists>w' evs. loop getDelta timestamp w = Inr w' \<and> filter is_effect_call evs = [] \<and>
     (repeat m = 0 \<longrightarrow>
        trace w' = trace w @ map (\<lambda>cb. EffectCall cb timestamp) (globalEffects w) @ evs @
                   map (\<lambda>cb. EffectCall cb timestamp) (globalAfterEffects w) @
                   map (\<lambda>cb. EffectCall cb timestamp) (globalTailEffects w) \<and>
        \<not> running w' \<and> raf_pending w' = raf_pending w \<and>
        (raf_pending w = [] \<longrightarrow> raf_pending w' = [])) \<and>
     (repeat m \<noteq> 0 \<longrightarrow>
        trace w' = trace w @ map (\<lambda>cb. EffectCall cb timestamp) (globalEffects w) @ evs @
                   map (\<lambda>cb. EffectCall cb timestamp) (globalAfterEffects w) \<and>
        running w' \<and> raf_pending w' = raf_pending w @ [raf_next w])"
proof -
  from loop_body_trace [OF assms(1)] obtain evs where
    evs: "trace m = trace w @ map (\<lambda>cb. EffectCall cb timestamp) (globalEffects w) @ evs @
                    map (\<lambda>cb. EffectCall cb timestamp) (globalAfterEffects w)"
      "filter is_effect_call evs = []"
    by blast
  have "loop getDelta timestamp w = Inr (loop_end timestamp m)"
    using assms(1) by (simp add: loop_def)
  moreover have "repeat m = 0 \<longrightarrow>
        trace (loop_end timestamp m) = trace m @ map (\<lambda>cb. EffectCall cb timestamp) (globalTailEffects w) \<and>
        \<not> running (loop_end timestamp m) \<and> raf_pending (loop_end timestamp m) = raf_pending w"
    using loop_body_driver [OF assms(1)] assms(2)
    by (simp add: loop_end_def cancelAnimationFrame_def run_closed Let_def)
  moreover have "repeat m \<noteq> 0 \<longrightarrow>
        trace (loop_end timestamp m) = trace m \<and> running (loop_end timestamp m) \<and>
        raf_pending (loop_end timestamp m) = raf_pending w @ [raf_next w]"
    using loop_body_driver [OF assms(1)]
    by (simp add: loop_end_def)
  ultimately show ?thesis using evs by auto
qed

theorem loop_end_of_tick_witness:
  "(\<exists>w' evs. loop stopped 16 (demo_world [(0, 0)] Demand 1) = Inr w' \<and>
      filter is_effect_call evs = [] \<and>
      trace w' = [EffectCall 1 16] @ evs @ [EffectCall 2 16, EffectCall 3 16] \<and>
      \<not> running w' \<and> raf_pending w' = []) \<and>
   (\<exists>w' evs. loop stopped 16 (demo_world [(0, 0)] Always 0) = Inr w' \<and>
      filter is_effect_call evs = [] \<and>
      trace w' = [EffectCall 1 16] @ evs @ [EffectCall 2 16] \<and>
      running w' \<and> raf_pending w' = [0])"
proof -
  have "\<exists>m. loop_body stopped 16 (demo_world [(0, 0)] Demand 1) = Inr m \<and> repeat m = 0"
    by (simp add: eval_defs)
  then obtain m1 where m1: "loop_body stopped 16 (demo_world [(0, 0)] Demand 1) = Inr m1"
    and r1: "repeat m1 = 0"
    by blast
  have "\<exists>m. loop_body stopped 16 (demo_world [(0, 0)] Always 0) = Inr m \<and> repeat m = 1"
    by (simp add: eval_defs)
  then obtain m2 where m2: "loop_body stopped 16 (demo_world [(0, 0)] Always 0) = Inr m2"
    and r2: "repeat m2 = 1"
    by blast
  have f1: "raf_next (demo_world [(0, 0)] Demand 1) \<notin> set (raf_pending (demo_world [(0, 0)] Demand 1))"
    by (simp add: demo_world_def)
  have f2: "raf_next (demo_world [(0, 0)] Always 0) \<notin> set (raf_pending (demo_world [(0, 0)] Always 0))"
    by (simp add: demo_world_def)
  show ?thesis
    using loop_end_of_tick [OF m1 f1] loop_end_of_tick [OF m2 f2] r1 r2
    by (simp add: demo_world_def)
qed

subsection \<open>The pending-frame counter\<close>

lemma no_growth_refl: "no_growth a w w"
  by (simp add: no_growth_def)

lemma no_growth_trans: "no_growth a w w1 \<Longrightarrow> no_growth a w1 w2 \<Longrightarrow> no_growth a w w2"
  by (auto simp: no_growth_def)

lemma update_no_growth: "no_growth a w (snd (update getDelta timestamp b fr w))"
  by (simp add: update_closed Let_def no_growth_def)

lemma install_no_growth: "install b w = Inr w' \<Longrightarrow> no_growth a w w'"
  by (auto dest!: install_closed simp: no_growth_def)

lemma loop_root_no_growth: "loop_root getDelta timestamp rt w = Inr w' \<Longrightarrow> no_growth a w w'"
proof -
  assume lr: "loop_root getDelta timestamp rt w = Inr w'"
  then obtain w1 where i: "(if init w then install (snd rt) w else Inr w) = Inr w1"
    by (auto simp: loop_root_def Let_def split: sum.splits)
  have g1: "no_growth a w w1"
    using i by (auto split: if_splits intro: install_no_growth no_growth_refl)
  have "w' = w1 \<or> (\<exists>n. w' = (snd (update getDelta timestamp (snd rt) None w1))\<lparr>repeat := n\<rparr>)"
    using lr i by (auto simp: loop_root_def Let_def split: if_splits prod.splits)
  then have "no_growth a w1 w'"
    using update_no_growth [of a w1 getDelta timestamp "snd rt" None]
    by (auto simp: no_growth_def)
  with g1 show ?thesis by (rule no_growth_trans)
qed

lemma forEach_no_growth:
  "forEach (loop_root getDelta timestamp) rs w = Inr w' \<Longrightarrow> no_growth a w w'"
proof (induction rs arbitrary: w)
  case Nil
  then show ?case by (simp add: no_growth_refl)
next
  case (Cons r rs)
  then show ?case
    by (auto split: sum.splits dest: loop_root_no_growth no_growth_trans)
qed

lemma loop_no_growth:
  assumes "loop getDelta timestamp w = Inr w'"
  shows "no_growth a w w'"
proof -
  define w2 where
    "w2 = (snd (requestAnimationFrame w))\<lparr>frame := Some (raf_next w), running := True, repeat := 0\<rparr>"
  define w3 where
    "w3 = (if globalEffects w2 \<noteq> [] then run (globalEffects w2) timestamp w2 else w2)"
  have lb: "loop_body getDelta timestamp w =
          (case forEach (loop_root getDelta timestamp) (roots w3) w3 of
             Inl e \<Rightarrow> Inl e
           | Inr w4 \<Rightarrow>
               Inr (if globalAfterEffects w4 \<noteq> [] then run (globalAfterEffects w4) timestamp w4
                    else w4))"
    by (simp add: loop_body_def w3_def w2_def requestAnimationFrame_def Let_def)
  from assms obtain m where m: "loop_body getDelta timestamp w = Inr m"
    and w': "w' = loop_end timestamp m"
    by (auto simp: loop_def split: sum.splits)
  from m lb obtain w4 where
    fe: "forEach (loop_root getDelta timestamp) (roots w3) w3 = Inr w4" and
    m4: "m = (if globalAfterEffects w4 \<noteq> [] then run (globalAfterEffects w4) timestamp w4 else w4)"
    by (auto split: sum.splits)
  have s3: "store w3 = store w"
    by (simp add: w3_def w2_def run_closed requestAnimationFrame_def)
  have s': "store w' = store w4"
    by (simp add: w' m4 loop_end_def cancelAnimationFrame_def run_closed Let_def split: option.splits)
  from forEach_no_growth [OF fe] have "no_growth a w3 w4" .
  then show ?thesis by (simp add: no_growth_def s3 s')
qed

lemma fold_update_no_growth:
  "no_growth a w (fold (\<lambda>rt w'. snd (update getDelta timestamp (snd rt) None w')) rs w)"
proof (induction rs arbitrary: w)
  case Nil
  then show ?case by (simp add: no_growth_refl)
next
  case (Cons r rs)
  show ?case
    using no_growth_trans [OF update_no_growth Cons.IH] by simp
qed

lemma advance_no_growth: "no_growth a w (advance getDelta timestamp g state fr w)"
proof -
  define w1 where "w1 = (if g then run (globalEffects w) timestamp w else w)"
  define w2 where
    "w2 = (case state of
             None \<Rightarrow> fold (\<lambda>rt w'. snd (update getDelta timestamp (snd rt) None w')) (roots w1) w1
           | Some b \<Rightarrow> snd (update getDelta timestamp b fr w1))"
  have s1: "store w1 = store w"
    by (simp add: w1_def run_closed)
  have g: "no_growth a w1 w2"
    unfolding w2_def by (cases state) (simp_all add: fold_update_no_growth update_no_growth)
  have "advance getDelta timestamp g state fr w =
          (if g then run (globalAfterEffects w2) timestamp w2 else w2)"
    unfolding advance_def w1_def w2_def Let_def by (rule refl)
  then have "store (advance getDelta timestamp g state fr w) = store w2"
    by (simp add: run_closed)
  with g s1 show ?thesis by (simp add: no_growth_def)
qed

lemma invalidate_some_in_range:
  "in_range w a \<Longrightarrow> 0 \<le> (case frames_arg of None \<Rightarrow> 1 | Some n \<Rightarrow> n) \<Longrightarrow>
   in_range (invalidate (Some b) frames_arg w) a"
  by (auto simp: in_range_def Let_def requestAnimationFrame_def)

lemma fold_invalidate_in_range:
  "in_range w a \<Longrightarrow>
   in_range (fold (\<lambda>rt w'. invalidate (Some (snd rt)) None w') rs w) a"
proof (induction rs arbitrary: w)
  case Nil
  then show ?case by simp
next
  case (Cons r rs)
  have "in_range (invalidate (Some (snd r)) None w) a"
    using Cons.prems by (rule invalidate_some_in_range) simp
  from Cons.IH [OF this] show ?case by simp
qed

lemma invalidate_in_range:
  assumes "in_range w a" and "frames_arg_ok (Invalidate state frames_arg)"
  shows "in_range (invalidate state frames_arg w) a"
proof (cases state)
  case None
  then show ?thesis using assms(1) by (simp add: fold_invalidate_in_range)
next
  case (Some b)
  have "0 \<le> (case frames_arg of None \<Rightarrow> 1 | Some n \<Rightarrow> n)"
    using assms(2) by (cases frames_arg) simp_all
  with assms(1) show ?thesis unfolding Some by (rule invalidate_some_in_range)
qed

lemma no_growth_in_range: "no_growth a w w' \<Longrightarrow> in_range w a \<Longrightarrow> in_range w' a"
  by (auto simp: no_growth_def in_range_def)

lemma exec_in_range:
  assumes "in_range w a" and "frames_arg_ok act" and "exec getDelta act w = Inr w'"
  shows "in_range w' a"
proof (cases act)
  case (Invalidate state frames_arg)
  with assms show ?thesis by (auto intro: invalidate_in_range)
next
  case (Tick timestamp)
  with assms show ?thesis by (auto intro: no_growth_in_range loop_no_growth)
next
  case (Advance timestamp g state fr)
  with assms show ?thesis by (auto intro: no_growth_in_range advance_no_growth)
qed

lemma exec_all_in_range:
  "in_range w a \<Longrightarrow> \<forall>act \<in> set acts. frames_arg_ok act \<Longrightarrow>
   exec_all getDelta acts w = Inr w' \<Longrightarrow> in_range w' a"
proof (induction acts arbitrary: w)
  case Nil
  then show ?case by simp
next
  case (Cons act acts)
  then show ?case
    by (auto split: sum.splits dest: exec_in_range)
qed

text \<open>
  C5, as amended. Along every sequence of calls of \<^verbatim>\<open>invalidate\<close> with frame counts that
  are not negative, of ticks and of calls of \<^verbatim>\<open>advance\<close>, a pending-frame counter that
  is in [0, 60] stays in [0, 60]. Every update pass of a root sets its counter to
  max(0, counter - 1), and neither a tick nor \<^verbatim>\<open>advance\<close> makes a counter that is not
  negative grow: only \<^verbatim>\<open>invalidate\<close> does, and its result is capped at 60.
\<close>

theorem frames_stay_in_range:
  assumes "in_range w a"
    and "\<forall>act \<in> set acts. frames_arg_ok act"
    and "exec_all getDelta acts w = Inr w'"
  shows "in_range w' a \<and>
         (\<forall>timestamp b fr v.
            frames (store (snd (update getDelta timestamp b fr v)) b) =
              max 0 (frames (store v b) - 1)) \<and>
         (\<forall>act v v'. \<not> is_invalidate act \<and> exec getDelta act v = Inr v' \<longrightarrow> no_growth a v v')"
proof -
  have "no_growth a v v'" if "\<not> is_invalidate act" and "exec getDelta act v = Inr v'"
    for act v v'
    using that by (cases act) (auto intro: loop_no_growth advance_no_growth)
  then show ?thesis
    using exec_all_in_range [OF assms] by (auto simp: update_closed Let_def)
qed

theorem frames_stay_in_range_witness:
  "in_range (demo_world [(0, 0)] Demand 0) 0 \<and>
   (\<exists>w'. exec_all stopped
           [Invalidate (Some 0) (Some 100), Tick 16, Advance 32 True (Some 0) None]
           (demo_world [(0, 0)] Demand 0) = Inr w' \<and>
         frames (store w' 0) = 58 \<and> in_range w' 0)"
proof -
  have r: "in_range (demo_world [(0, 0)] Demand 0) 0"
    by (simp add: in_range_def demo_world_def demo_root_def)
  have ok: "\<forall>act \<in> set [Invalidate (Some 0) (Some 100), Tick 16, Advance 32 True (Some 0) None].
              frames_arg_ok act"
    by simp
  have "\<exists>w'. exec_all stopped
               [Invalidate (Some 0) (Some 100), Tick 16, Advance 32 True (Some 0) None]
               (demo_world [(0, 0)] Demand 0) = Inr w' \<and>
             frames (store w' 0) = 58"
    by (simp add: loop_def loop_end_def advance_def eval_defs)
  then obtain w' where
    e: "exec_all stopped
          [Invalidate (Some 0) (Some 100), Tick 16, Advance 32 True (Some 0) None]
          (demo_world [(0, 0)] Demand 0) = Inr w'"
    and f: "frames (store w' 0) = 58"
    by blast
  from frames_stay_in_range [OF r ok e] have "in_range w' 0" by blast
  with r e f show ?thesis by blast
qed

text \<open>
  The claim C5 as it is written covers every call of \<^verbatim>\<open>invalidate\<close>. Line 136 caps the
  sum at 60 and has no lower bound: \<^verbatim>\<open>invalidate(state, -1)\<close> on an eligible root whose
  counter is 0 leaves the counter at -1.
\<close>

theorem negative_frame_count:
  "in_range (demo_world [(0, 0)] Demand 0) 0 \<and>
   frames (store (invalidate (Some 0) (Some (- 1)) (demo_world [(0, 0)] Demand 0)) 0) = - 1 \<and>
   \<not> in_range (invalidate (Some 0) (Some (- 1)) (demo_world [(0, 0)] Demand 0)) 0"
  by (simp add: in_range_def demo_world_def demo_root_def isPresenting_def
      requestAnimationFrame_def Let_def)

end
